theory Spec2Isabelle
  imports
    Complex_Main
    "HOL-Library.AList"
    "HOL-Library.Char_ord"
    "HOL-Library.List_Lexorder"
    "HOL-Library.Sublist"
begin

section \<open>JSON documents and the canonical serialisation\<close>

text \<open>
  The configuration manager of \<^verbatim>\<open>config_manager.py\<close> keeps its data as JSON. A Python
  dictionary keeps its keys in insertion order, so an object is an association list.
  A float is carried by the text that \<^verbatim>\<open>json.dumps\<close> prints for it: the manager never
  computes with the numbers of a configuration, it only serialises them. An integer and
  a float are different leaves (\<^verbatim>\<open>1\<close> and \<^verbatim>\<open>1.0\<close> serialise differently).
\<close>

datatype json =
    JNull
  | JBool bool
  | JInt int
  | JFloat string
  | JStr string
  | JArr "json list"
  | JObj "(string \<times> json) list"

text \<open>
  \<^verbatim>\<open>json.dumps(v, sort_keys=True)\<close> prints every object with its items sorted by key, at
  every depth. \<open>sort_keys\<close> is that reordering; Python's sort is stable, as \<open>sort_key\<close> is.
  Keys are strings, compared character by character.
\<close>

fun sort_keys :: "json \<Rightarrow> json" where
  "sort_keys (JObj kvs) = JObj (sort_key fst (map (\<lambda>kv. (fst kv, sort_keys (snd kv))) kvs))"
| "sort_keys (JArr xs) = JArr (map sort_keys xs)"
| "sort_keys v = v"

text \<open>
  The two library functions the source calls are parameters of the model: the text that
  \<^verbatim>\<open>json.dumps\<close> prints for a document whose keys are already in order, and
  \<^verbatim>\<open>hashlib.md5(...).hexdigest()\<close>. Nothing is assumed about either.
\<close>

record pylib =
  dumps_text :: "json \<Rightarrow> string"
  md5_hex :: "string \<Rightarrow> string"

definition json_dumps_sorted :: "pylib \<Rightarrow> json \<Rightarrow> string" where
  "json_dumps_sorted lib v = dumps_text lib (sort_keys v)"

text \<open>Lines 56-57 and 94-95: the hash of a configuration.\<close>

definition config_hash_of :: "pylib \<Rightarrow> json \<Rightarrow> string" where
  "config_hash_of lib config = md5_hex lib (json_dumps_sorted lib config)"

text \<open>
  Equality of two documents as Python's \<^verbatim>\<open>==\<close> decides it on dictionaries and lists of
  the same leaves: two dictionaries are equal when they have the same number of keys and
  every key of the first is bound in the second to an equal value, whatever the order.
  A Python dictionary has each key once, which the object case states.
\<close>

function (sequential) json_eq :: "json \<Rightarrow> json \<Rightarrow> bool" where
  "json_eq (JObj a) (JObj b) =
     (distinct (map fst a) \<and> distinct (map fst b) \<and> length a = length b \<and>
      (\<forall>kv \<in> set a. case map_of b (fst kv) of None \<Rightarrow> False | Some w \<Rightarrow> json_eq (snd kv) w))"
| "json_eq (JArr xs) (JArr ys) =
     (length xs = length ys \<and> (\<forall>p \<in> set (zip xs ys). json_eq (fst p) (snd p)))"
| "json_eq u v = (u = v)"
  by pat_completeness auto
termination
proof (relation "measure (\<lambda>p. size (fst p))")
  show "wf (measure (\<lambda>p. size (fst p)))" by simp
next
  fix a b :: "(string \<times> json) list" and kv w
  assume "kv \<in> set a"
  then have "size (snd kv) < size (JObj a)"
    by (induction a) auto
  then show "((snd kv, w), (JObj a, JObj b)) \<in> measure (\<lambda>p. size (fst p))" by simp
next
  fix xs ys :: "json list" and p
  assume "p \<in> set (zip xs ys)"
  then have "fst p \<in> set xs" by (metis prod.collapse set_zip_leftD)
  then have "size (fst p) < size (JArr xs)"
    by (induction xs) auto
  then show "((fst p, snd p), (JArr xs, JArr ys)) \<in> measure (\<lambda>p. size (fst p))" by simp
qed

section \<open>The configuration store\<close>

text \<open>The six parameters of \<^verbatim>\<open>manage_experiment_config\<close> that make a configuration.\<close>

record params =
  rates_cpra :: json
  xeno_rates_base :: json
  xeno_proportion :: json
  low_key :: string
  high_key :: string
  T :: int

text \<open>Lines 46-53 (and 192-199): the configuration dictionary, in the order written.\<close>

definition mk_config :: "params \<Rightarrow> json" where
  "mk_config p = JObj
     [(''rates_cpra'', rates_cpra p),
      (''xeno_rates_base'', xeno_rates_base p),
      (''xeno_proportion'', xeno_proportion p),
      (''low_key'', JStr (low_key p)),
      (''high_key'', JStr (high_key p)),
      (''T'', JInt (T p))]"

text \<open>Two parameter sets equal field by field, dictionaries compared with \<open>json_eq\<close>.\<close>

definition params_eq :: "params \<Rightarrow> params \<Rightarrow> bool" where
  "params_eq p q \<longleftrightarrow>
     json_eq (rates_cpra p) (rates_cpra q) \<and>
     json_eq (xeno_rates_base p) (xeno_rates_base q) \<and>
     json_eq (xeno_proportion p) (xeno_proportion q) \<and>
     low_key p = low_key q \<and> high_key p = high_key q \<and> T p = T q"

text \<open>
  The content of the store file: the two dictionaries \<^verbatim>\<open>name_to_config\<close> and
  \<^verbatim>\<open>config_to_name\<close>. The file is written with \<^verbatim>\<open>json.dump\<close> and read back with
  \<^verbatim>\<open>json.load\<close>; the model keeps the documents themselves.
\<close>

record store =
  name_to_config :: "(string \<times> json) list"
  config_to_name :: "(string \<times> string) list"

text \<open>
  The disk as the manager sees it: the store file (\<open>None\<close> when it does not exist) and
  the number of times it has been written, so that "no write" is a statement about the
  state and not only about the content.
\<close>

record disk =
  config_file :: "store option"
  writes :: nat

datatype error =
    ValueError
  | FileNotFoundError
  | KeyError
  | IndexError
  | ZeroDivisionError
  | UnpicklingError

definition empty_store :: store where
  "empty_store = \<lparr>name_to_config = [], config_to_name = []\<rparr>"

text \<open>Lines 60-67: the file's content, or two empty dictionaries.\<close>

definition load_store :: "disk \<Rightarrow> store" where
  "load_store d = (case config_file d of Some s \<Rightarrow> s | None \<Rightarrow> empty_store)"

text \<open>
  Lines 121-133: bind the name to the configuration and the hash to the name
  (\<open>AList.update\<close> replaces the value of a key in place and appends a new key, as a
  Python dictionary does), write the whole store, return the name.
\<close>

definition save_config :: "store \<Rightarrow> string \<Rightarrow> json \<Rightarrow> string \<Rightarrow> disk \<Rightarrow> (error + string) \<times> disk" where
  "save_config data name config config_hash d =
     (let data' = \<lparr>name_to_config = AList.update name config (name_to_config data),
                   config_to_name = AList.update config_hash name (config_to_name data)\<rparr>
      in (Inr name, \<lparr>config_file = Some data', writes = Suc (writes d)\<rparr>))"

text \<open>
  Lines 106-110: on overwrite, the mapping from the old configuration's hash is deleted
  when it is there and points at the name.
\<close>

definition drop_stale :: "store \<Rightarrow> string \<Rightarrow> string \<Rightarrow> store" where
  "drop_stale data existing_config_hash name =
     (if map_of (config_to_name data) existing_config_hash = Some name
      then data\<lparr>config_to_name := AList.delete existing_config_hash (config_to_name data)\<rparr>
      else data)"

text \<open>Lines 70-72: the name given, or a generated one.\<close>

definition requested_name :: "string option \<Rightarrow> string \<Rightarrow> string" where
  "requested_name name uuid_hex =
     (case name of None \<Rightarrow> ''exp_'' @ take 8 uuid_hex | Some n \<Rightarrow> n)"

text \<open>
  Lines 91-123, "Case 2": the requested name is looked up. A name bound to a
  configuration of the same hash is returned with nothing written; a name bound to
  another configuration raises \<^verbatim>\<open>ValueError\<close> unless \<open>overwrite\<close> is set; otherwise the
  entry is written.
\<close>

definition check_name ::
  "pylib \<Rightarrow> store \<Rightarrow> string \<Rightarrow> json \<Rightarrow> string \<Rightarrow> bool \<Rightarrow> disk \<Rightarrow> (error + string) \<times> disk" where
  "check_name lib data name config config_hash overwrite d =
     (case map_of (name_to_config data) name of
        Some existing_config \<Rightarrow>
          (let existing_config_hash = config_hash_of lib existing_config
           in if existing_config_hash = config_hash then (Inr name, d)
              else if \<not> overwrite then (Inl ValueError, d)
              else save_config (drop_stale data existing_config_hash name)
                     name config config_hash d)
      | None \<Rightarrow> save_config data name config config_hash d)"

text \<open>
  \<^verbatim>\<open>manage_experiment_config\<close>, lines 8-133. \<open>name\<close> is the optional name; \<open>uuid_hex\<close> is
  the text of \<^verbatim>\<open>uuid.uuid4().hex\<close>, an input of the model, read only when no name is
  given. The result is the returned name or the raised error, and the disk afterwards.
  Lines 78-89, "Case 1", are the lookup of the hash; it falls through to Case 2 when the
  hash is unknown, or known under another name with \<open>overwrite\<close> set.
\<close>

definition manage_experiment_config ::
  "pylib \<Rightarrow> params \<Rightarrow> string option \<Rightarrow> string \<Rightarrow> bool \<Rightarrow> disk \<Rightarrow> (error + string) \<times> disk" where
  "manage_experiment_config lib p name uuid_hex overwrite d =
     (let config = mk_config p;
          config_hash = config_hash_of lib config;
          data = load_store d;
          name = requested_name name uuid_hex
      in
        case map_of (config_to_name data) config_hash of
          Some existing_name \<Rightarrow>
            if existing_name = name then (Inr name, d)
            else if \<not> overwrite then (Inr existing_name, d)
            else check_name lib data name config config_hash overwrite d
        | None \<Rightarrow> check_name lib data name config config_hash overwrite d)"

text \<open>
  The invariant of the store that the manager keeps: every name that a hash is mapped to
  is a key of \<^verbatim>\<open>name_to_config\<close>.
\<close>

definition store_inv :: "store \<Rightarrow> bool" where
  "store_inv s \<longleftrightarrow> set (map snd (config_to_name s)) \<subseteq> set (map fst (name_to_config s))"

text \<open>
  A store is consistent when every hash of \<^verbatim>\<open>config_to_name\<close> points at a name that
  \<^verbatim>\<open>name_to_config\<close> binds to a configuration of that hash. The empty store is
  consistent and every call of the manager keeps a consistent store consistent.
\<close>

definition store_consistent :: "pylib \<Rightarrow> store \<Rightarrow> bool" where
  "store_consistent lib s \<longleftrightarrow>
     (\<forall>h \<in> set (map fst (config_to_name s)).
        case map_of (config_to_name s) h of
          None \<Rightarrow> True
        | Some n \<Rightarrow>
            (case map_of (name_to_config s) n of
               None \<Rightarrow> False
             | Some config \<Rightarrow> config_hash_of lib config = h))"

text \<open>\<^verbatim>\<open>get_config_by_name\<close>, lines 136-161.\<close>

definition get_config_by_name :: "string \<Rightarrow> disk \<Rightarrow> error + json" where
  "get_config_by_name name d =
     (case config_file d of
        None \<Rightarrow> Inl FileNotFoundError
      | Some data \<Rightarrow>
          (case map_of (name_to_config data) name of
             None \<Rightarrow> Inl KeyError
           | Some config \<Rightarrow> Inr config))"

text \<open>\<^verbatim>\<open>get_name_by_config\<close>, lines 164-210: \<open>None\<close> is Python's \<^verbatim>\<open>None\<close>.\<close>

definition get_name_by_config :: "pylib \<Rightarrow> params \<Rightarrow> disk \<Rightarrow> string option" where
  "get_name_by_config lib p d =
     (let config = mk_config p;
          config_hash = config_hash_of lib config
      in case config_file d of
           None \<Rightarrow> None
         | Some data \<Rightarrow> map_of (config_to_name data) config_hash)"

text \<open>\<^verbatim>\<open>list_all_configs\<close>, lines 213-233.\<close>

definition list_all_configs :: "disk \<Rightarrow> (string \<times> json) list" where
  "list_all_configs d = (case config_file d of None \<Rightarrow> [] | Some data \<Rightarrow> name_to_config data)"

section \<open>Result files\<close>

text \<open>
  A directory of result files is what \<^verbatim>\<open>os.listdir\<close> returns, in the order it returns it,
  each name with what \<^verbatim>\<open>pickle.load\<close> reads from that file (\<open>None\<close> when the file does
  not unpickle). The file system maps the path of a folder to its directory, or to \<open>None\<close>
  when the folder does not exist. A file name is the list of its characters; the loader
  only compares them with the characters of the configuration name, \<^verbatim>\<open>_\<close>, \<^verbatim>\<open>.\<close> and
  \<^verbatim>\<open>.pkl\<close>, and hands a piece of the name to \<^verbatim>\<open>int\<close>.
\<close>

type_synonym 'a directory = "(string \<times> 'a option) list"

text \<open>\<^verbatim>\<open>os.path.join\<close> of two components, as \<^verbatim>\<open>posixpath\<close> computes it.\<close>

definition path_join :: "string \<Rightarrow> string \<Rightarrow> string" where
  "path_join a b =
     (if prefix ''/'' b then b
      else if a = [] \<or> suffix ''/'' a then a @ b
      else a @ ''/'' @ b)"

text \<open>
  \<^verbatim>\<open>s.split(c)\<close> for a separator of one character: the pieces between the occurrences of
  \<open>c\<close>, never an empty list.
\<close>

fun str_split :: "char \<Rightarrow> string \<Rightarrow> string list" where
  "str_split c [] = [[]]"
| "str_split c (x # xs) =
     (if x = c then [] # str_split c xs
      else (case str_split c xs of w # ws \<Rightarrow> (x # w) # ws | [] \<Rightarrow> [[x]]))"

text \<open>
  The built-in \<^verbatim>\<open>int\<close> applied to a string is a parameter of the model, \<open>py_int\<close>: it
  returns the integer the text denotes, or \<open>None\<close> where \<^verbatim>\<open>int\<close> raises \<^verbatim>\<open>ValueError\<close>.
  Nothing is assumed about which texts it accepts.
\<close>

text \<open>Line 270, the sort key: \<^verbatim>\<open>int(x.split("_")[-1].split(".")[0])\<close>.\<close>

definition run_index_text :: "string \<Rightarrow> string" where
  "run_index_text x = hd (str_split CHR ''.'' (last (str_split CHR ''_'' x)))"

definition run_index :: "(string \<Rightarrow> int option) \<Rightarrow> string \<Rightarrow> int option" where
  "run_index py_int x = py_int (run_index_text x)"

text \<open>
  Line 270, \<^verbatim>\<open>experiment_files.sort(key=...)\<close>: the key of every name is computed first,
  and the first one that fails raises; then the names are sorted by key, stably.
\<close>

definition sort_by_run_index ::
  "(string \<Rightarrow> int option) \<Rightarrow> string list \<Rightarrow> error + string list" where
  "sort_by_run_index py_int experiment_files =
     (case those (map (run_index py_int) experiment_files) of
        None \<Rightarrow> Inl ValueError
      | Some keys \<Rightarrow> Inr (map snd (sort_key fst (zip keys experiment_files))))"

text \<open>A loop that stops at the first element that raises.\<close>

fun map_raise :: "('a \<Rightarrow> error + 'b) \<Rightarrow> 'a list \<Rightarrow> error + 'b list" where
  "map_raise f [] = Inr []"
| "map_raise f (x # xs) =
     (case f x of
        Inl e \<Rightarrow> Inl e
      | Inr y \<Rightarrow> (case map_raise f xs of Inl e \<Rightarrow> Inl e | Inr ys \<Rightarrow> Inr (y # ys)))"

text \<open>Lines 273-276: open one file of the folder and unpickle it.\<close>

definition load_file :: "'a directory \<Rightarrow> string \<Rightarrow> error + 'a" where
  "load_file listing filename =
     (case map_of listing filename of
        None \<Rightarrow> Inl FileNotFoundError
      | Some None \<Rightarrow> Inl UnpicklingError
      | Some (Some experiment_output) \<Rightarrow> Inr experiment_output)"

text \<open>Line 266: the files of the configuration.\<close>

definition is_experiment_file :: "string \<Rightarrow> string \<Rightarrow> bool" where
  "is_experiment_file config_name filename \<longleftrightarrow>
     prefix (config_name @ ''_'') filename \<and> suffix ''.pkl'' filename"

text \<open>\<^verbatim>\<open>load_experiment_results\<close>, lines 236-279.\<close>

definition load_experiment_results ::
  "(string \<Rightarrow> int option) \<Rightarrow> string \<Rightarrow> string option \<Rightarrow> string
     \<Rightarrow> (string \<Rightarrow> 'a directory option) \<Rightarrow> error + 'a list" where
  "load_experiment_results py_int config_name experiment_folder base_folder fs =
     (let experiment_folder =
            (case experiment_folder of
               None \<Rightarrow> path_join base_folder config_name
             | Some f \<Rightarrow> f)
      in case fs experiment_folder of
           None \<Rightarrow> Inl FileNotFoundError
         | Some listing \<Rightarrow>
             (let experiment_files = filter (is_experiment_file config_name) (map fst listing)
              in case sort_by_run_index py_int experiment_files of
                   Inl e \<Rightarrow> Inl e
                 | Inr sorted_files \<Rightarrow> map_raise (load_file listing) sorted_files))"

section \<open>Summary statistics\<close>

text \<open>
  A result is the tuple that \<^verbatim>\<open>run_system\<close> returned: a list of time series. Numbers are
  real numbers: the rounding of floating-point arithmetic is not part of the model.
\<close>

type_synonym experiment_output = "real list list"

text \<open>
  Lines 309-325: the tuple is unpacked into twelve names (\<^verbatim>\<open>ValueError\<close> when it has
  another length), and the last element of each series is taken (\<^verbatim>\<open>IndexError\<close> when a
  series is empty).
\<close>

definition final_values_of :: "experiment_output \<Rightarrow> error + (string \<times> real) list" where
  "final_values_of e =
     (case e of
        [C_low, C_high, xeno_used, waitlist_deaths_low, waitlist_deaths_high,
         post_tx_deaths_low, post_tx_deaths_high, total_deaths, H_low, H_high_std,
         H_high_xeno, times'] \<Rightarrow>
          if [] \<in> set e then Inl IndexError
          else Inr
            [(''final_waitlist_low'', last C_low),
             (''final_waitlist_high'', last C_high),
             (''total_waitlist_deaths_low'', last waitlist_deaths_low),
             (''total_waitlist_deaths_high'', last waitlist_deaths_high),
             (''total_post_tx_deaths_low'', last post_tx_deaths_low),
             (''total_post_tx_deaths_high'', last post_tx_deaths_high),
             (''total_deaths'', last total_deaths),
             (''total_xeno_used'', last xeno_used),
             (''final_recipients_low'', last H_low),
             (''final_recipients_high_std'', last H_high_std),
             (''final_recipients_high_xeno'', last H_high_xeno),
             (''simulation_time'', last times')]
      | _ \<Rightarrow> Inl ValueError)"

record stats =
  stat_mean :: real
  stat_std :: real
  stat_min :: real
  stat_max :: real
  stat_values :: "real list"

datatype summary_value = Stats stats | Count nat

text \<open>
  Lines 330-337: the values of one key over all runs and their statistics. Dividing by
  the length of an empty list raises \<^verbatim>\<open>ZeroDivisionError\<close>.
\<close>

definition stats_of :: "real list \<Rightarrow> error + stats" where
  "stats_of vs =
     (case vs of
        [] \<Rightarrow> Inl ZeroDivisionError
      | v # rest \<Rightarrow> Inr
          \<lparr>stat_mean = sum_list vs / real (length vs),
           stat_std =
             (sum_list (map (\<lambda>x. (x - sum_list vs / real (length vs))\<^sup>2) vs)
                / real (length vs)) powr (1 / 2),
           stat_min = fold min rest v,
           stat_max = fold max rest v,
           stat_values = vs\<rparr>)"

definition key_summary :: "(string \<times> real) list list \<Rightarrow> string \<Rightarrow> error + string \<times> summary_value" where
  "key_summary final_values key =
     (case those (map (\<lambda>e. map_of e key) final_values) of
        None \<Rightarrow> Inl KeyError
      | Some vs \<Rightarrow> (case stats_of vs of Inl e \<Rightarrow> Inl e | Inr st \<Rightarrow> Inr (key, Stats st)))"

text \<open>\<^verbatim>\<open>get_experiment_summary\<close>, lines 282-341. The empty dictionary is the empty list.\<close>

definition get_experiment_summary ::
  "(string \<Rightarrow> int option) \<Rightarrow> string \<Rightarrow> string option \<Rightarrow> string
     \<Rightarrow> (string \<Rightarrow> experiment_output directory option)
     \<Rightarrow> error + (string \<times> summary_value) list" where
  "get_experiment_summary py_int config_name experiment_folder base_folder fs =
     (case load_experiment_results py_int config_name experiment_folder base_folder fs of
        Inl e \<Rightarrow> Inl e
      | Inr experiments \<Rightarrow>
          if experiments = [] then Inr []
          else
            (case map_raise final_values_of experiments of
               Inl e \<Rightarrow> Inl e
             | Inr final_values \<Rightarrow>
                 (case map_raise (key_summary final_values) (map fst (hd final_values)) of
                    Inl e \<Rightarrow> Inl e
                  | Inr summary \<Rightarrow>
                      Inr (AList.update ''num_experiments'' (Count (length experiments))
                             summary))))"

text \<open>
  The keys of lines 313-324 in the order written, each with the position in the tuple
  of the series it reads.
\<close>

definition final_fields :: "(string \<times> nat) list" where
  "final_fields =
     [(''final_waitlist_low'', 0),
      (''final_waitlist_high'', 1),
      (''total_waitlist_deaths_low'', 3),
      (''total_waitlist_deaths_high'', 4),
      (''total_post_tx_deaths_low'', 5),
      (''total_post_tx_deaths_high'', 6),
      (''total_deaths'', 7),
      (''total_xeno_used'', 2),
      (''final_recipients_low'', 8),
      (''final_recipients_high_std'', 9),
      (''final_recipients_high_xeno'', 10),
      (''simulation_time'', 11)]"

text \<open>
  The statistics as the specification words them: the arithmetic mean, the population
  standard deviation (the sum of squared deviations divided by the number of values,
  then the square root), the least and the greatest value, and the values themselves.
\<close>

definition population_stats :: "real list \<Rightarrow> stats" where
  "population_stats vs =
     \<lparr>stat_mean = sum_list vs / real (length vs),
      stat_std = sqrt ((\<Sum>x\<leftarrow>vs. (x - sum_list vs / real (length vs))\<^sup>2) / real (length vs)),
      stat_min = Min (set vs),
      stat_max = Max (set vs),
      stat_values = vs\<rparr>"

section \<open>Sample data\<close>

text \<open>
  Concrete inputs for the examples below. The sample library prints of a configuration
  only its \<^verbatim>\<open>low_key\<close> and hashes a text to itself; the theorems hold for every library.
  The sample \<open>py_int\<close> reads four numerals; on every text it is applied to below it
  returns what \<^verbatim>\<open>int\<close> returns.
\<close>

abbreviation sample_lib :: pylib where
  "sample_lib \<equiv>
     \<lparr>dumps_text =
        (\<lambda>j. case j of
                JObj kvs \<Rightarrow> (case map_of kvs ''low_key'' of Some (JStr s) \<Rightarrow> s | _ \<Rightarrow> [])
              | _ \<Rightarrow> []),
      md5_hex = (\<lambda>s. s)\<rparr>"

abbreviation sample_A :: params where
  "sample_A \<equiv>
     \<lparr>rates_cpra = JObj [(''0-85'', JFloat ''0.1''), (''85-100'', JFloat ''0.2'')],
      xeno_rates_base = JObj [], xeno_proportion = JFloat ''0.5'',
      low_key = ''0-85'', high_key = ''85-100'', T = 3650\<rparr>"

abbreviation sample_A' :: params where
  "sample_A' \<equiv>
     \<lparr>rates_cpra = JObj [(''85-100'', JFloat ''0.2''), (''0-85'', JFloat ''0.1'')],
      xeno_rates_base = JObj [], xeno_proportion = JFloat ''0.5'',
      low_key = ''0-85'', high_key = ''85-100'', T = 3650\<rparr>"

abbreviation sample_B :: params where
  "sample_B \<equiv>
     \<lparr>rates_cpra = JObj [(''0-80'', JFloat ''0.1''), (''80-100'', JFloat ''0.2'')],
      xeno_rates_base = JObj [], xeno_proportion = JFloat ''0.5'',
      low_key = ''0-80'', high_key = ''80-100'', T = 3650\<rparr>"

abbreviation fresh_disk :: disk where
  "fresh_disk \<equiv> \<lparr>config_file = None, writes = 0\<rparr>"

abbreviation sample_C :: params where
  "sample_C \<equiv>
     \<lparr>rates_cpra = JObj [(''0-70'', JFloat ''0.1''), (''70-100'', JFloat ''0.2'')],
      xeno_rates_base = JObj [], xeno_proportion = JFloat ''0.5'',
      low_key = ''0-70'', high_key = ''70-100'', T = 3650\<rparr>"

abbreviation sample_int :: "string \<Rightarrow> int option" where
  "sample_int \<equiv>
     (\<lambda>s. if s = ''0'' then Some 0 else if s = ''1'' then Some 1
          else if s = ''2'' then Some 2 else if s = ''10'' then Some 10 else None)"

abbreviation sample_run :: "real \<Rightarrow> experiment_output" where
  "sample_run deaths \<equiv>
     [[5, 4], [3, 2], [0, 1], [1], [1], [1], [1], [0, deaths], [1], [1], [1], [0, 1, 2]]"

abbreviation sample_fs :: "string \<Rightarrow> experiment_output directory option" where
  "sample_fs \<equiv>
     map_of
       [(''monte_carlo/exp'',
         [(''exp_0.pkl'', Some (sample_run 10)),
          (''exp_10.pkl'', Some (sample_run 30)),
          (''notes.txt'', None),
          (''exp_2.pkl'', Some (sample_run 20))])]"

section \<open>Properties\<close>

subsection \<open>The canonical form does not depend on the order of keys\<close>

lemma sort_key_distinct_set:
  assumes "distinct (map f xs)" "distinct (map f ys)" "set xs = set ys"
  shows "sort_key f xs = sort_key f ys"
proof -
  have inj: "inj_on f (set xs)" using assms(1) by (simp add: distinct_map)
  have dx: "distinct (map f (sort_key f xs))"
    using assms(1) by (simp add: distinct_map)
  have dy: "distinct (map f (sort_key f ys))"
    using assms(2) by (simp add: distinct_map)
  have "set (map f (sort_key f xs)) = set (map f (sort_key f ys))"
    using assms(3) by simp
  then have "map f (sort_key f xs) = map f (sort_key f ys)"
    using dx dy by (intro sorted_distinct_set_unique) simp_all
  moreover have "inj_on f (set (sort_key f xs) \<union> set (sort_key f ys))"
    using inj assms(3) by simp
  ultimately show ?thesis by (rule map_inj_on)
qed

lemma json_eq_sort_keys: "json_eq u v \<Longrightarrow> sort_keys u = sort_keys v"
proof (induction u v rule: json_eq.induct)
  case (1 a b)
  let ?g = "\<lambda>kv :: string \<times> json. (fst kv, sort_keys (snd kv))"
  from "1.prems" have da: "distinct (map fst a)" and db: "distinct (map fst b)"
    and len: "length a = length b"
    and each: "\<And>kv. kv \<in> set a \<Longrightarrow> \<exists>w. map_of b (fst kv) = Some w \<and> json_eq (snd kv) w"
    by (auto split: option.splits)
  have sub: "?g kv \<in> ?g ` set b" if "kv \<in> set a" for kv
  proof -
    from each [OF that] obtain w where w: "map_of b (fst kv) = Some w" "json_eq (snd kv) w"
      by blast
    from "1.IH" [OF that w(1) w(2)] have "sort_keys (snd kv) = sort_keys w" .
    moreover from w(1) have "(fst kv, w) \<in> set b" by (rule map_of_SomeD)
    ultimately show ?thesis by (intro image_eqI [where x = "(fst kv, w)"]) simp_all
  qed
  have keys_sub: "fst ` set a \<subseteq> fst ` set b"
  proof
    fix k assume "k \<in> fst ` set a"
    then obtain kv where "kv \<in> set a" "k = fst kv" by blast
    with sub [of kv] obtain kv' where "kv' \<in> set b" "?g kv = ?g kv'" by blast
    with \<open>k = fst kv\<close> show "k \<in> fst ` set b" by (intro image_eqI [where x = kv']) simp_all
  qed
  have "card (fst ` set a) = length a" using da
    by (metis distinct_card length_map set_map)
  moreover have "card (fst ` set b) = length b" using db
    by (metis distinct_card length_map set_map)
  ultimately have keys: "fst ` set a = fst ` set b"
    using keys_sub len by (simp add: card_subset_eq)
  have sup: "?g kv' \<in> ?g ` set a" if "kv' \<in> set b" for kv'
  proof -
    from that have "fst kv' \<in> fst ` set a" using keys by simp
    then obtain kv where kv: "kv \<in> set a" "fst kv = fst kv'" by force
    from each [OF kv(1)] obtain w where w: "map_of b (fst kv) = Some w" "json_eq (snd kv) w"
      by blast
    from "1.IH" [OF kv(1) w(1) w(2)] have e: "sort_keys (snd kv) = sort_keys w" .
    have "map_of b (fst kv') = Some (snd kv')"
      using db that by (metis map_of_eq_Some_iff prod.collapse)
    with w(1) kv(2) have "w = snd kv'" by simp
    with e kv show ?thesis by (intro image_eqI [where x = kv]) simp_all
  qed
  have "set (map ?g a) = set (map ?g b)"
    using sub sup by auto
  moreover have "distinct (map fst (map ?g a))" "distinct (map fst (map ?g b))"
    using da db by (simp_all add: comp_def)
  ultimately have "sort_key fst (map ?g a) = sort_key fst (map ?g b)"
    by (intro sort_key_distinct_set)
  then show ?case by simp
next
  case (2 xs ys)
  then have len: "length xs = length ys"
    and each: "\<And>p. p \<in> set (zip xs ys) \<Longrightarrow> json_eq (fst p) (snd p)"
    by auto
  have "map sort_keys xs = map sort_keys ys"
  proof (rule nth_equalityI)
    show "length (map sort_keys xs) = length (map sort_keys ys)" using len by simp
  next
    fix i assume "i < length (map sort_keys xs)"
    then have i: "i < length xs" "i < length ys" using len by simp_all
    then have m: "(xs ! i, ys ! i) \<in> set (zip xs ys)"
      by (metis length_zip min_less_iff_conj nth_mem nth_zip)
    from "2.IH" [OF m] each [OF m] have "sort_keys (xs ! i) = sort_keys (ys ! i)" by simp
    with i show "map sort_keys xs ! i = map sort_keys ys ! i" by simp
  qed
  then show ?case by simp
qed simp_all

lemma params_eq_hash:
  assumes "params_eq p q"
  shows "config_hash_of lib (mk_config p) = config_hash_of lib (mk_config q)"
proof -
  from assms have "sort_keys (rates_cpra p) = sort_keys (rates_cpra q)"
    "sort_keys (xeno_rates_base p) = sort_keys (xeno_rates_base q)"
    "sort_keys (xeno_proportion p) = sort_keys (xeno_proportion q)"
    "low_key p = low_key q" "high_key p = high_key q" "T p = T q"
    by (simp_all add: params_eq_def json_eq_sort_keys)
  then have "sort_keys (mk_config p) = sort_keys (mk_config q)"
    by (simp add: mk_config_def)
  then show ?thesis by (simp add: config_hash_of_def json_dumps_sorted_def)
qed

subsection \<open>Association lists\<close>

lemma snd_set_update: "snd ` set (AList.update k v al) \<subseteq> insert v (snd ` set al)"
  by (induction al) auto

lemma snd_set_delete: "snd ` set (AList.delete k al) \<subseteq> snd ` set al"
  by (auto simp: AList.delete_eq)

lemma fst_set_update: "fst ` set (AList.update k v al) = insert k (fst ` set al)"
  by (simp add: AList.dom_update)

text \<open>The equations that evaluate one call on a concrete store.\<close>

lemmas manage_eval = manage_experiment_config_def check_name_def save_config_def drop_stale_def
  load_store_def empty_store_def requested_name_def config_hash_of_def json_dumps_sorted_def
  mk_config_def Let_def

subsection \<open>Two facts about one call\<close>



subsection \<open>Name conflict\<close>

text \<open>
  Claim C3. When the requested name is bound in the store to a configuration with a
  different hash, the hash of the new configuration is not a key of \<^verbatim>\<open>config_to_name\<close>
  and \<open>overwrite\<close> is false, \<^verbatim>\<open>manage_experiment_config\<close> raises \<^verbatim>\<open>ValueError\<close> and the
  disk is as it was: the same file content and no write counted.
\<close>

theorem name_conflict_store_unmodified:
  assumes "map_of (name_to_config (load_store d)) (requested_name name uuid_hex) = Some existing_config"
    and "config_hash_of lib existing_config \<noteq> config_hash_of lib (mk_config p)"
    and "map_of (config_to_name (load_store d)) (config_hash_of lib (mk_config p)) = None"
  shows "manage_experiment_config lib p name uuid_hex False d = (Inl ValueError, d)"
  using assms by (simp add: manage_experiment_config_def check_name_def Let_def)

theorem name_conflict_witness:
  "map_of [(''a'', mk_config sample_B)] ''a'' = Some (mk_config sample_B) \<and>
   config_hash_of sample_lib (mk_config sample_B) \<noteq> config_hash_of sample_lib (mk_config sample_A) \<and>
   map_of [(''0-80'', ''a'')] (config_hash_of sample_lib (mk_config sample_A)) = None \<and>
   manage_experiment_config sample_lib sample_A (Some ''a'') [] False
     \<lparr>config_file = Some \<lparr>name_to_config = [(''a'', mk_config sample_B)],
                           config_to_name = [(''0-80'', ''a'')]\<rparr>, writes = 1\<rparr>
   = (Inl ValueError,
      \<lparr>config_file = Some \<lparr>name_to_config = [(''a'', mk_config sample_B)],
                           config_to_name = [(''0-80'', ''a'')]\<rparr>, writes = 1\<rparr>)"
  using name_conflict_store_unmodified [of
      "\<lparr>config_file = Some \<lparr>name_to_config = [(''a'', mk_config sample_B)],
                           config_to_name = [(''0-80'', ''a'')]\<rparr>, writes = 1\<rparr>"
      "Some ''a''" "[]" "mk_config sample_B" sample_lib sample_A]
  by (simp add: load_store_def requested_name_def config_hash_of_def json_dumps_sorted_def
      mk_config_def)

subsection \<open>Deduplication by content\<close>




subsection \<open>Overwriting a name\<close>

text \<open>The write of the overwrite path, on every store where Case 1 does not return.\<close>

lemma overwrite_writes:
  assumes bound: "map_of (name_to_config (load_store d)) (requested_name name uuid_hex) = Some existing_config"
    and other: "config_hash_of lib existing_config \<noteq> config_hash_of lib (mk_config p)"
    and fresh: "map_of (config_to_name (load_store d)) (config_hash_of lib (mk_config p))
                  \<noteq> Some (requested_name name uuid_hex)"
  shows "manage_experiment_config lib p name uuid_hex True d =
           (Inr (requested_name name uuid_hex),
            \<lparr>config_file = Some
               \<lparr>name_to_config =
                  AList.update (requested_name name uuid_hex) (mk_config p)
                    (name_to_config (load_store d)),
                config_to_name =
                  AList.update (config_hash_of lib (mk_config p)) (requested_name name uuid_hex)
                    (if map_of (config_to_name (load_store d)) (config_hash_of lib existing_config)
                          = Some (requested_name name uuid_hex)
                     then AList.delete (config_hash_of lib existing_config)
                            (config_to_name (load_store d))
                     else config_to_name (load_store d))\<rparr>,
             writes = Suc (writes d)\<rparr>)"
  using assms
  by (auto simp: manage_experiment_config_def check_name_def save_config_def drop_stale_def
      Let_def split: option.splits)

text \<open>Every store that the manager produces from no file is consistent.\<close>

lemma store_consistent_iff:
  "store_consistent lib s \<longleftrightarrow>
     (\<forall>h n. map_of (config_to_name s) h = Some n \<longrightarrow>
        (\<exists>config. map_of (name_to_config s) n = Some config \<and> config_hash_of lib config = h))"
proof
  assume c: "store_consistent lib s"
  show "\<forall>h n. map_of (config_to_name s) h = Some n \<longrightarrow>
        (\<exists>config. map_of (name_to_config s) n = Some config \<and> config_hash_of lib config = h)"
  proof (intro allI impI)
    fix h n assume m: "map_of (config_to_name s) h = Some n"
    then have "h \<in> set (map fst (config_to_name s))"
      by (metis map_of_SomeD fst_conv image_eqI list.set_map)
    with c have "case map_of (config_to_name s) h of
          None \<Rightarrow> True
        | Some n \<Rightarrow>
            (case map_of (name_to_config s) n of
               None \<Rightarrow> False
             | Some config \<Rightarrow> config_hash_of lib config = h)"
      unfolding store_consistent_def by blast
    with m show "\<exists>config. map_of (name_to_config s) n = Some config \<and> config_hash_of lib config = h"
      by (simp split: option.splits)
  qed
next
  assume "\<forall>h n. map_of (config_to_name s) h = Some n \<longrightarrow>
        (\<exists>config. map_of (name_to_config s) n = Some config \<and> config_hash_of lib config = h)"
  then have "\<And>h n. map_of (config_to_name s) h = Some n \<Longrightarrow>
        (\<exists>config. map_of (name_to_config s) n = Some config \<and> config_hash_of lib config = h)"
    by blast
  then show "store_consistent lib s"
    unfolding store_consistent_def by (fastforce split: option.splits)
qed

lemma store_consistent_empty: "store_consistent lib empty_store"
  by (simp add: store_consistent_def empty_store_def)

lemma save_config_consistent:
  assumes rest: "\<And>h' m. map_of (config_to_name s) h' = Some m \<Longrightarrow> h' \<noteq> h \<Longrightarrow>
            m \<noteq> n \<and> (\<exists>c. map_of (name_to_config s) m = Some c \<and> config_hash_of lib c = h')"
    and h: "config_hash_of lib config = h"
    and save: "save_config s n config h d = (r, d')"
  shows "store_consistent lib (load_store d')"
proof -
  from save have d': "load_store d' =
      \<lparr>name_to_config = AList.update n config (name_to_config s),
       config_to_name = AList.update h n (config_to_name s)\<rparr>"
    by (auto simp: save_config_def load_store_def)
  show ?thesis
    unfolding store_consistent_iff d'
    using rest h by (auto simp: AList.update_conv' split: if_splits)
qed

lemma manage_keeps_store_consistent:
  assumes inv: "store_consistent lib (load_store d)"
    and call: "manage_experiment_config lib p name uuid_hex overwrite d = (r, d')"
  shows "store_consistent lib (load_store d')"
proof -
  let ?n = "requested_name name uuid_hex"
  let ?c = "mk_config p"
  let ?h = "config_hash_of lib ?c"
  let ?s = "load_store d"
  note J = inv [unfolded store_consistent_iff, rule_format]
  consider (same) "d' = d"
    | (plain) "map_of (name_to_config ?s) ?n = None" "save_config ?s ?n ?c ?h d = (r, d')"
    | (stale) existing where "map_of (name_to_config ?s) ?n = Some existing"
        "save_config (drop_stale ?s (config_hash_of lib existing) ?n) ?n ?c ?h d = (r, d')"
    using call
    by (auto simp: manage_experiment_config_def check_name_def Let_def
        split: option.splits if_splits)
  then show ?thesis
  proof cases
    case same
    with inv show ?thesis by simp
  next
    case plain
    show ?thesis
    proof (rule save_config_consistent [OF _ refl plain(2)])
      fix h' m assume "map_of (config_to_name ?s) h' = Some m" "h' \<noteq> ?h"
      with J [of h' m] plain(1)
      show "m \<noteq> ?n \<and> (\<exists>c. map_of (name_to_config ?s) m = Some c \<and> config_hash_of lib c = h')"
        by auto
    qed
  next
    case stale
    let ?o = "config_hash_of lib existing"
    show ?thesis
    proof (rule save_config_consistent [OF _ refl stale(2)])
      fix h' m
      assume m: "map_of (config_to_name (drop_stale ?s ?o ?n)) h' = Some m" and "h' \<noteq> ?h"
      from m have old: "map_of (config_to_name ?s) h' = Some m"
        by (auto simp: drop_stale_def AList.delete_conv' split: if_splits)
      from J [OF old] obtain c where c: "map_of (name_to_config ?s) m = Some c"
        "config_hash_of lib c = h'" by blast
      have "m \<noteq> ?n"
      proof
        assume "m = ?n"
        with c stale(1) have "h' = ?o" by simp
        with old \<open>m = ?n\<close> have "map_of (config_to_name (drop_stale ?s ?o ?n)) h' = None"
          by (simp add: drop_stale_def AList.delete_conv')
        with m show False by simp
      qed
      moreover have "name_to_config (drop_stale ?s ?o ?n) = name_to_config ?s"
        by (simp add: drop_stale_def)
      ultimately show "m \<noteq> ?n \<and>
          (\<exists>c. map_of (name_to_config (drop_stale ?s ?o ?n)) m = Some c \<and> config_hash_of lib c = h')"
        using c by simp
    qed
  qed
qed

text \<open>
  Claim C8. When the requested name is bound to a configuration with a different hash
  and \<open>overwrite\<close> is true, \<^verbatim>\<open>manage_experiment_config\<close> returns the name and writes the
  store once: the mapping of the old hash is deleted exactly when it pointed at the
  requested name, the name is bound to the new configuration and the new hash to the
  name. This holds on every store where the new hash is not a key of \<^verbatim>\<open>config_to_name\<close>
  (the row of the decision table), and on every consistent store, hence on every store
  the manager has produced.
\<close>

theorem overwrite_replaces_entry:
  assumes bound: "map_of (name_to_config (load_store d)) (requested_name name uuid_hex) = Some existing_config"
    and other: "config_hash_of lib existing_config \<noteq> config_hash_of lib (mk_config p)"
    and store: "map_of (config_to_name (load_store d)) (config_hash_of lib (mk_config p)) = None
                \<or> store_consistent lib (load_store d)"
  shows "manage_experiment_config lib p name uuid_hex True d =
           (Inr (requested_name name uuid_hex),
            \<lparr>config_file = Some
               \<lparr>name_to_config =
                  AList.update (requested_name name uuid_hex) (mk_config p)
                    (name_to_config (load_store d)),
                config_to_name =
                  AList.update (config_hash_of lib (mk_config p)) (requested_name name uuid_hex)
                    (if map_of (config_to_name (load_store d)) (config_hash_of lib existing_config)
                          = Some (requested_name name uuid_hex)
                     then AList.delete (config_hash_of lib existing_config)
                            (config_to_name (load_store d))
                     else config_to_name (load_store d))\<rparr>,
             writes = Suc (writes d)\<rparr>)"
proof -
  have fresh: "map_of (config_to_name (load_store d)) (config_hash_of lib (mk_config p))
                  \<noteq> Some (requested_name name uuid_hex)"
  proof
    assume m: "map_of (config_to_name (load_store d)) (config_hash_of lib (mk_config p))
                  = Some (requested_name name uuid_hex)"
    with store have "store_consistent lib (load_store d)" by auto
    from this [unfolded store_consistent_iff, rule_format, OF m] bound other
    show False by auto
  qed
  from bound other fresh show ?thesis by (rule overwrite_writes)
qed

theorem overwrite_replaces_entry_witness:
  "store_consistent sample_lib
     \<lparr>name_to_config = [(''a'', mk_config sample_B), (''c'', mk_config sample_C)],
      config_to_name = [(''0-80'', ''a''), (''0-70'', ''c'')]\<rparr> \<and>
   manage_experiment_config sample_lib sample_A (Some ''a'') [] True
     \<lparr>config_file = Some \<lparr>name_to_config = [(''a'', mk_config sample_B), (''c'', mk_config sample_C)],
                           config_to_name = [(''0-80'', ''a''), (''0-70'', ''c'')]\<rparr>, writes = 2\<rparr>
   = (Inr ''a'',
      \<lparr>config_file = Some \<lparr>name_to_config = [(''a'', mk_config sample_A), (''c'', mk_config sample_C)],
                           config_to_name = [(''0-70'', ''c''), (''0-85'', ''a'')]\<rparr>, writes = 3\<rparr>)"
proof -
  have consistent: "store_consistent sample_lib
     \<lparr>name_to_config = [(''a'', mk_config sample_B), (''c'', mk_config sample_C)],
      config_to_name = [(''0-80'', ''a''), (''0-70'', ''c'')]\<rparr>"
    by (simp add: store_consistent_def config_hash_of_def json_dumps_sorted_def mk_config_def)
  from overwrite_replaces_entry [of
      "\<lparr>config_file = Some \<lparr>name_to_config = [(''a'', mk_config sample_B), (''c'', mk_config sample_C)],
                           config_to_name = [(''0-80'', ''a''), (''0-70'', ''c'')]\<rparr>, writes = 2\<rparr>"
      "Some ''a''" "[]" "mk_config sample_B" sample_lib sample_A] consistent
  show ?thesis
    by (simp add: load_store_def requested_name_def config_hash_of_def json_dumps_sorted_def
        mk_config_def)
qed

subsection \<open>Looking a name up by configuration\<close>

text \<open>
  Claim C9. \<^verbatim>\<open>get_name_by_config\<close> returns \<^verbatim>\<open>None\<close> when the store file is missing and
  when the hash of the configuration is not a key of \<^verbatim>\<open>config_to_name\<close>. On a fresh
  store (no file) every call of \<^verbatim>\<open>manage_experiment_config\<close> succeeds and returns the
  requested name, and afterwards \<^verbatim>\<open>get_name_by_config\<close>, asked with an equal
  configuration, returns that name.
\<close>

theorem get_name_round_trip:
  "(config_file d = None \<longrightarrow> get_name_by_config lib p d = None) \<and>
   (\<forall>s. config_file d = Some s \<and> map_of (config_to_name s) (config_hash_of lib (mk_config p)) = None
        \<longrightarrow> get_name_by_config lib p d = None) \<and>
   (config_file d = None \<and> params_eq p q \<longrightarrow>
      fst (manage_experiment_config lib p name uuid_hex overwrite d) = Inr (requested_name name uuid_hex) \<and>
      get_name_by_config lib q (snd (manage_experiment_config lib p name uuid_hex overwrite d))
        = Some (requested_name name uuid_hex))"
proof -
  have "config_hash_of lib (mk_config q) = config_hash_of lib (mk_config p)" if "params_eq p q"
    using that by (simp add: params_eq_hash)
  then show ?thesis
    by (auto simp: get_name_by_config_def manage_experiment_config_def check_name_def
        save_config_def load_store_def empty_store_def Let_def AList.update_conv')
qed

theorem get_name_round_trip_witness:
  "get_name_by_config sample_lib sample_A fresh_disk = None \<and>
   get_name_by_config sample_lib sample_A
     \<lparr>config_file = Some \<lparr>name_to_config = [(''b'', mk_config sample_B)],
                           config_to_name = [(''0-80'', ''b'')]\<rparr>, writes = 1\<rparr> = None \<and>
   fst (manage_experiment_config sample_lib sample_A (Some ''a'') [] False fresh_disk) = Inr ''a'' \<and>
   get_name_by_config sample_lib sample_A'
     (snd (manage_experiment_config sample_lib sample_A (Some ''a'') [] False fresh_disk)) = Some ''a''"
proof -
  have eq: "params_eq sample_A sample_A'" by (simp add: params_eq_def)
  have h: "map_of [(''0-80'', ''b'')] (config_hash_of sample_lib (mk_config sample_A)) = None"
    by (simp add: config_hash_of_def json_dumps_sorted_def mk_config_def)
  from get_name_round_trip [of fresh_disk sample_lib sample_A sample_A' "Some ''a''" "[]" False]
    get_name_round_trip [of "\<lparr>config_file = Some \<lparr>name_to_config = [(''b'', mk_config sample_B)],
                           config_to_name = [(''0-80'', ''b'')]\<rparr>, writes = 1\<rparr>"
       sample_lib sample_A sample_A' "Some ''a''" "[]" False]
    eq h
  show ?thesis by (simp add: requested_name_def)
qed

subsection \<open>The invariant of the store\<close>

text \<open>
  Claim C10. Every call of \<^verbatim>\<open>manage_experiment_config\<close> keeps \<open>store_inv\<close>: every name a
  hash is mapped to is a key of \<^verbatim>\<open>name_to_config\<close>. No key of \<^verbatim>\<open>name_to_config\<close> is ever
  removed, and whenever the call changes the disk, the hash of the configuration is
  mapped to the requested name and that name is bound to the configuration.
\<close>

theorem manage_keeps_store_inv:
  assumes inv: "store_inv (load_store d)"
    and call: "manage_experiment_config lib p name uuid_hex overwrite d = (r, d')"
  shows "store_inv (load_store d') \<and>
         set (map fst (name_to_config (load_store d))) \<subseteq> set (map fst (name_to_config (load_store d'))) \<and>
         (d' \<noteq> d \<longrightarrow>
            map_of (config_to_name (load_store d')) (config_hash_of lib (mk_config p))
              = Some (requested_name name uuid_hex) \<and>
            map_of (name_to_config (load_store d')) (requested_name name uuid_hex)
              = Some (mk_config p))"
proof -
  let ?n = "requested_name name uuid_hex"
  let ?h = "config_hash_of lib (mk_config p)"
  let ?s = "load_store d"
  have save: "store_inv (load_store (snd (save_config s ?n (mk_config p) ?h d))) \<and>
      set (map fst (name_to_config s)) \<subseteq>
        set (map fst (name_to_config (load_store (snd (save_config s ?n (mk_config p) ?h d))))) \<and>
      map_of (config_to_name (load_store (snd (save_config s ?n (mk_config p) ?h d)))) ?h = Some ?n \<and>
      map_of (name_to_config (load_store (snd (save_config s ?n (mk_config p) ?h d)))) ?n
        = Some (mk_config p)"
    if "store_inv s" for s
  proof -
    have "snd ` set (config_to_name s) \<subseteq> fst ` set (name_to_config s)"
      using that by (simp add: store_inv_def)
    with snd_set_update [of ?h ?n "config_to_name s"]
    have "snd ` set (AList.update ?h ?n (config_to_name s))
            \<subseteq> insert ?n (fst ` set (name_to_config s))"
      by blast
    then have "snd ` set (AList.update ?h ?n (config_to_name s))
            \<subseteq> fst ` set (AList.update ?n (mk_config p) (name_to_config s))"
      by (simp only: fst_set_update)
    then show ?thesis
      by (simp add: store_inv_def save_config_def load_store_def fst_set_update
          AList.update_conv' subset_insertI)
  qed
  have drop: "store_inv (drop_stale ?s h' ?n) \<and>
      name_to_config (drop_stale ?s h' ?n) = name_to_config ?s" for h'
  proof -
    have "snd ` set (config_to_name ?s) \<subseteq> fst ` set (name_to_config ?s)"
      using inv by (simp add: store_inv_def)
    with snd_set_delete [of h' "config_to_name ?s"]
    have "snd ` set (AList.delete h' (config_to_name ?s)) \<subseteq> fst ` set (name_to_config ?s)"
      by blast
    with inv show ?thesis by (simp add: store_inv_def drop_stale_def)
  qed
  consider (same) "d' = d"
    | (plain) "save_config ?s ?n (mk_config p) ?h d = (r, d')"
    | (stale) h' where "save_config (drop_stale ?s h' ?n) ?n (mk_config p) ?h d = (r, d')"
    using call
    by (auto simp: manage_experiment_config_def check_name_def Let_def
        split: option.splits if_splits)
  then show ?thesis
  proof cases
    case same
    with inv show ?thesis by simp
  next
    case plain
    then have "d' = snd (save_config ?s ?n (mk_config p) ?h d)" by (metis snd_conv)
    with save [OF inv] show ?thesis by simp
  next
    case stale
    then have "d' = snd (save_config (drop_stale ?s h' ?n) ?n (mk_config p) ?h d)"
      by (metis snd_conv)
    with save [of "drop_stale ?s h' ?n"] drop [of h'] show ?thesis by simp
  qed
qed

theorem manage_keeps_store_inv_witness:
  "store_inv \<lparr>name_to_config = [(''a'', mk_config sample_B), (''c'', mk_config sample_C)],
              config_to_name = [(''0-80'', ''a''), (''0-70'', ''c'')]\<rparr> \<and>
   store_inv \<lparr>name_to_config = [(''a'', mk_config sample_A), (''c'', mk_config sample_C)],
              config_to_name = [(''0-70'', ''c''), (''0-85'', ''a'')]\<rparr> \<and>
   map_of [(''0-70'', ''c''), (''0-85'', ''a'')] (config_hash_of sample_lib (mk_config sample_A)) = Some ''a''"
proof -
  have inv: "store_inv (load_store
      \<lparr>config_file = Some \<lparr>name_to_config = [(''a'', mk_config sample_B), (''c'', mk_config sample_C)],
                           config_to_name = [(''0-80'', ''a''), (''0-70'', ''c'')]\<rparr>, writes = 2\<rparr>)"
    by (simp add: store_inv_def load_store_def)
  have call: "manage_experiment_config sample_lib sample_A (Some ''a'') [] True
     \<lparr>config_file = Some \<lparr>name_to_config = [(''a'', mk_config sample_B), (''c'', mk_config sample_C)],
                           config_to_name = [(''0-80'', ''a''), (''0-70'', ''c'')]\<rparr>, writes = 2\<rparr>
   = (Inr ''a'',
      \<lparr>config_file = Some \<lparr>name_to_config = [(''a'', mk_config sample_A), (''c'', mk_config sample_C)],
                           config_to_name = [(''0-70'', ''c''), (''0-85'', ''a'')]\<rparr>, writes = 3\<rparr>)"
    by (simp add: manage_eval)
  from manage_keeps_store_inv [OF inv call] inv
  show ?thesis by (simp add: load_store_def requested_name_def)
qed

subsection \<open>Loading result files\<close>

lemma those_map_Some: "those (map Some xs) = Some xs"
  by (induction xs) simp_all

lemma those_None: "None \<in> set xs \<Longrightarrow> those xs = None"
  by (induction xs) (auto split: option.splits)

lemma map_raise_all_ok:
  "(\<And>y. y \<in> set ys \<Longrightarrow> f y = Inr (g y)) \<Longrightarrow> map_raise f ys = Inr (map g ys)"
  by (induction ys) simp_all

lemma insort_key_apsnd:
  "insort_key fst (apsnd g x) (map (apsnd g) ys) = map (apsnd g) (insort_key fst x ys)"
  by (induction ys) simp_all

lemma sort_key_apsnd:
  "sort_key fst (map (apsnd g) xs) = map (apsnd g) (sort_key fst xs)"
  by (induction xs) (simp_all add: insort_key_apsnd)

lemma sort_key_zip_map:
  "map snd (sort_key fst (zip ks (map g fs))) = map g (map snd (sort_key fst (zip ks fs)))"
proof -
  have "zip ks (map g fs) = map (apsnd g) (zip ks fs)"
    by (simp add: zip_map2 apsnd_def map_prod_def)
  then show ?thesis by (simp add: sort_key_apsnd comp_def)
qed

lemma load_sorted_by_key:
  assumes folder: "fs (case experiment_folder of None \<Rightarrow> path_join base_folder config_name
                                               | Some f \<Rightarrow> f) = Some listing"
    and keys: "map (run_index py_int) (filter (is_experiment_file config_name) (map fst listing))
                 = map Some ks"
    and payloads: "map (map_of listing) (filter (is_experiment_file config_name) (map fst listing))
                 = map (\<lambda>x. Some (Some x)) xs"
  shows "load_experiment_results py_int config_name experiment_folder base_folder fs
           = Inr (map snd (sort_key fst (zip ks xs))) \<and>
         sorted (map fst (sort_key fst (zip ks xs)))"
proof -
  let ?files = "filter (is_experiment_file config_name) (map fst listing)"
  let ?g = "\<lambda>f. the (the (map_of listing f))"
  have xs: "xs = map ?g ?files"
  proof -
    have "map (\<lambda>r. the (the r)) (map (map_of listing) ?files)
          = map (\<lambda>r. the (the r)) (map (\<lambda>x. Some (Some x)) xs)"
      using payloads by simp
    then show ?thesis by (simp add: comp_def)
  qed
  have ok: "load_file listing f = Inr (?g f)" if "f \<in> set ?files" for f
  proof -
    from that payloads have "map_of listing f \<in> set (map (\<lambda>x. Some (Some x)) xs)"
      by (metis (no_types, lifting) image_eqI list.set_map)
    then show ?thesis by (auto simp: load_file_def)
  qed
  have sorted_files: "sort_by_run_index py_int ?files = Inr (map snd (sort_key fst (zip ks ?files)))"
    using keys by (simp add: sort_by_run_index_def those_map_Some)
  have "set (map snd (sort_key fst (zip ks ?files))) \<subseteq> set ?files"
    by (auto dest: set_zip_rightD)
  then have "map_raise (load_file listing) (map snd (sort_key fst (zip ks ?files)))
      = Inr (map ?g (map snd (sort_key fst (zip ks ?files))))"
    by (intro map_raise_all_ok ok) blast
  also have "map ?g (map snd (sort_key fst (zip ks ?files))) = map snd (sort_key fst (zip ks xs))"
    unfolding xs by (rule sort_key_zip_map [symmetric])
  finally have "load_experiment_results py_int config_name experiment_folder base_folder fs
           = Inr (map snd (sort_key fst (zip ks xs)))"
    using folder sorted_files by (simp add: load_experiment_results_def Let_def)
  then show ?thesis by simp
qed

text \<open>
  Claim C6, amended. When the folder exists and \<^verbatim>\<open>int\<close> rejects the run-index text of one
  file of the configuration, \<^verbatim>\<open>load_experiment_results\<close> raises \<^verbatim>\<open>ValueError\<close>: the whole
  load aborts and no result is returned, whatever the other files are. The run-index
  text of a file name is what line 270 hands to \<^verbatim>\<open>int\<close>: the part of the name after its
  last underscore, up to the first dot of that part.
\<close>

theorem malformed_index_aborts_load:
  assumes folder: "fs (case experiment_folder of None \<Rightarrow> path_join base_folder config_name
                                               | Some f \<Rightarrow> f) = Some listing"
    and bad: "\<exists>f \<in> set (map fst listing). is_experiment_file config_name f \<and> run_index py_int f = None"
  shows "load_experiment_results py_int config_name experiment_folder base_folder fs = Inl ValueError"
proof -
  let ?files = "filter (is_experiment_file config_name) (map fst listing)"
  from bad have "None \<in> set (map (run_index py_int) ?files)" by force
  then have "those (map (run_index py_int) ?files) = None" by (rule those_None)
  then have "sort_by_run_index py_int ?files = Inl ValueError"
    by (simp add: sort_by_run_index_def)
  with folder show ?thesis by (simp add: load_experiment_results_def Let_def)
qed

text \<open>
  Claim C7. When the folder exists and holds no file of the configuration, the list of
  results is empty and \<^verbatim>\<open>get_experiment_summary\<close> returns the empty dictionary; no error
  is raised, in particular no division by zero.
\<close>

theorem no_files_empty_summary:
  assumes folder: "fs (case experiment_folder of None \<Rightarrow> path_join base_folder config_name
                                               | Some f \<Rightarrow> f) = Some listing"
    and none: "\<forall>f \<in> set (map fst listing). \<not> is_experiment_file config_name f"
  shows "load_experiment_results py_int config_name experiment_folder base_folder fs = Inr [] \<and>
         get_experiment_summary py_int config_name experiment_folder base_folder fs = Inr []"
proof -
  from none have "filter (is_experiment_file config_name) (map fst listing) = []"
    by (simp add: filter_empty_conv)
  with folder have "load_experiment_results py_int config_name experiment_folder base_folder fs = Inr []"
    by (simp add: load_experiment_results_def sort_by_run_index_def Let_def)
  then show ?thesis by (simp add: get_experiment_summary_def)
qed

subsection \<open>The sample folder\<close>

text \<open>
  The folder \<^verbatim>\<open>monte_carlo/exp\<close> lists \<^verbatim>\<open>exp_0.pkl\<close>, \<^verbatim>\<open>exp_10.pkl\<close>, \<^verbatim>\<open>notes.txt\<close> and
  \<^verbatim>\<open>exp_2.pkl\<close>, in that order.
\<close>

lemma sample_files:
  "is_experiment_file ''exp'' ''exp_0.pkl''"
  "is_experiment_file ''exp'' ''exp_10.pkl''"
  "\<not> is_experiment_file ''exp'' ''notes.txt''"
  "is_experiment_file ''exp'' ''exp_2.pkl''"
  by code_simp+

lemma sample_texts:
  "run_index_text ''exp_0.pkl'' = ''0''"
  "run_index_text ''exp_10.pkl'' = ''10''"
  "run_index_text ''exp_2.pkl'' = ''2''"
  by code_simp+

lemma sample_keys:
  "run_index sample_int ''exp_0.pkl'' = Some 0"
  "run_index sample_int ''exp_10.pkl'' = Some 10"
  "run_index sample_int ''exp_2.pkl'' = Some 2"
  by (simp_all add: run_index_def sample_texts)

lemma sample_folder: "path_join ''monte_carlo'' ''exp'' = ''monte_carlo/exp''"
  by code_simp

lemma sample_load:
  "load_experiment_results sample_int ''exp'' None ''monte_carlo'' sample_fs
     = Inr [sample_run 10, sample_run 20, sample_run 30]"
  by (simp add: load_experiment_results_def sample_folder sample_files sample_keys
      sort_by_run_index_def load_file_def)

text \<open>
  Claim C5. When the folder exists, every file of the configuration has an integer run
  index (\<open>ks\<close>, in directory order) and unpickles (\<open>xs\<close>, in directory order),
  \<^verbatim>\<open>load_experiment_results\<close> returns the results sorted ascending by the run index as an
  integer, files of the same index in directory order. In a folder that lists
  \<^verbatim>\<open>exp_0.pkl\<close>, \<^verbatim>\<open>exp_10.pkl\<close>, \<^verbatim>\<open>exp_2.pkl\<close>, with \<^verbatim>\<open>int\<close> reading the numerals 0, 10 and
  2 as those numbers, the results are returned in the order 0, 2, 10.
\<close>

theorem load_in_numeric_order:
  "(fs (case experiment_folder of None \<Rightarrow> path_join base_folder config_name | Some f \<Rightarrow> f)
        = Some listing \<and>
    map (run_index py_int) (filter (is_experiment_file config_name) (map fst listing))
        = map Some ks \<and>
    map (map_of listing) (filter (is_experiment_file config_name) (map fst listing))
        = map (\<lambda>x. Some (Some x)) xs
    \<longrightarrow> load_experiment_results py_int config_name experiment_folder base_folder fs
          = Inr (map snd (sort_key fst (zip ks xs))) \<and>
        sorted (map fst (sort_key fst (zip ks xs)))) \<and>
   (py_int ''0'' = Some 0 \<and> py_int ''10'' = Some 10 \<and> py_int ''2'' = Some 2 \<and>
    fs' (case experiment_folder' of None \<Rightarrow> path_join base_folder' ''exp'' | Some f \<Rightarrow> f)
        = Some [(''exp_0.pkl'', Some r0), (''exp_10.pkl'', Some r10), (''exp_2.pkl'', Some r2)]
    \<longrightarrow> load_experiment_results py_int ''exp'' experiment_folder' base_folder' fs'
          = Inr [r0, r2, r10])"
proof -
  have example: "load_experiment_results py_int ''exp'' experiment_folder' base_folder' fs'
          = Inr [r0, r2, r10]"
    if ints: "py_int ''0'' = Some 0" "py_int ''10'' = Some 10" "py_int ''2'' = Some 2"
      and folder: "fs' (case experiment_folder' of None \<Rightarrow> path_join base_folder' ''exp''
                                                 | Some f \<Rightarrow> f)
        = Some [(''exp_0.pkl'', Some r0), (''exp_10.pkl'', Some r10), (''exp_2.pkl'', Some r2)]"
  proof -
    let ?listing = "[(''exp_0.pkl'', Some r0), (''exp_10.pkl'', Some r10), (''exp_2.pkl'', Some r2)]"
    have keys: "map (run_index py_int) (filter (is_experiment_file ''exp'') (map fst ?listing))
        = map Some [0, 10, 2]"
      by (simp add: sample_files run_index_def sample_texts ints)
    have payloads: "map (map_of ?listing) (filter (is_experiment_file ''exp'') (map fst ?listing))
        = map (\<lambda>x. Some (Some x)) [r0, r10, r2]"
      by (simp add: sample_files)
    from load_sorted_by_key [where fs = fs' and experiment_folder = experiment_folder'
        and base_folder = base_folder' and config_name = "''exp''", OF folder keys payloads]
    show ?thesis by simp
  qed
  show ?thesis
    using load_sorted_by_key [where fs = fs and experiment_folder = experiment_folder
        and base_folder = base_folder and config_name = config_name and listing = listing
        and py_int = py_int and ks = ks and xs = xs]
      example
    by blast
qed

theorem load_in_numeric_order_witness:
  "load_experiment_results sample_int ''exp'' None ''monte_carlo'' sample_fs
     = Inr [sample_run 10, sample_run 20, sample_run 30] \<and>
   load_experiment_results sample_int ''exp'' None ''monte_carlo''
     (map_of [(''monte_carlo/exp'',
        [(''exp_0.pkl'', Some ''run 0''), (''exp_10.pkl'', Some ''run 10''),
         (''exp_2.pkl'', Some ''run 2'')])])
     = Inr [''run 0'', ''run 2'', ''run 10'']"
proof -
  have folder: "sample_fs (case None of None \<Rightarrow> path_join ''monte_carlo'' ''exp'' | Some f \<Rightarrow> f)
      = Some [(''exp_0.pkl'', Some (sample_run 10)), (''exp_10.pkl'', Some (sample_run 30)),
              (''notes.txt'', None), (''exp_2.pkl'', Some (sample_run 20))]"
    by (simp add: sample_folder)
  have keys: "map (run_index sample_int) (filter (is_experiment_file ''exp'')
        (map fst [(''exp_0.pkl'', Some (sample_run 10)), (''exp_10.pkl'', Some (sample_run 30)),
              (''notes.txt'', None), (''exp_2.pkl'', Some (sample_run 20))]))
      = map Some [0, 10, 2]"
    by (simp add: sample_files sample_keys)
  have payloads: "map (map_of [(''exp_0.pkl'', Some (sample_run 10)), (''exp_10.pkl'', Some (sample_run 30)),
              (''notes.txt'', None), (''exp_2.pkl'', Some (sample_run 20))])
        (filter (is_experiment_file ''exp'')
        (map fst [(''exp_0.pkl'', Some (sample_run 10)), (''exp_10.pkl'', Some (sample_run 30)),
              (''notes.txt'', None), (''exp_2.pkl'', Some (sample_run 20))]))
      = map (\<lambda>x. Some (Some x)) [sample_run 10, sample_run 30, sample_run 20]"
    by (simp add: sample_files)
  have folder': "map_of [(''monte_carlo/exp'',
        [(''exp_0.pkl'', Some ''run 0''), (''exp_10.pkl'', Some ''run 10''),
         (''exp_2.pkl'', Some ''run 2'')])]
      (case None of None \<Rightarrow> path_join ''monte_carlo'' ''exp'' | Some f \<Rightarrow> f)
      = Some [(''exp_0.pkl'', Some ''run 0''), (''exp_10.pkl'', Some ''run 10''),
              (''exp_2.pkl'', Some ''run 2'')]"
    by (simp add: sample_folder)
  have ints: "sample_int ''0'' = Some 0 \<and> sample_int ''10'' = Some 10 \<and> sample_int ''2'' = Some 2"
    by simp
  from load_in_numeric_order [where py_int = sample_int
      and fs = sample_fs and experiment_folder = None and base_folder = "''monte_carlo''"
      and config_name = "''exp''"
      and listing = "[(''exp_0.pkl'', Some (sample_run 10)), (''exp_10.pkl'', Some (sample_run 30)),
              (''notes.txt'', None), (''exp_2.pkl'', Some (sample_run 20))]"
      and ks = "[0, 10, 2]" and xs = "[sample_run 10, sample_run 30, sample_run 20]"
      and fs' = "map_of [(''monte_carlo/exp'',
        [(''exp_0.pkl'', Some ''run 0''), (''exp_10.pkl'', Some ''run 10''),
         (''exp_2.pkl'', Some ''run 2'')])]"
      and experiment_folder' = None and base_folder' = "''monte_carlo''"
      and ?r0.0 = "''run 0''" and ?r10.0 = "''run 10''" and ?r2.0 = "''run 2''"]
  have "load_experiment_results sample_int ''exp'' None ''monte_carlo'' sample_fs
          = Inr (map snd (sort_key fst (zip [0::int, 10, 2]
                   [sample_run 10, sample_run 30, sample_run 20]))) \<and>
        load_experiment_results sample_int ''exp'' None ''monte_carlo''
          (map_of [(''monte_carlo/exp'',
             [(''exp_0.pkl'', Some ''run 0''), (''exp_10.pkl'', Some ''run 10''),
              (''exp_2.pkl'', Some ''run 2'')])])
          = Inr [''run 0'', ''run 2'', ''run 10'']"
    using folder keys payloads folder' ints by blast
  then show ?thesis by simp
qed

theorem malformed_index_aborts_load_witness:
  "is_experiment_file ''exp'' ''exp_final.pkl'' \<and> run_index sample_int ''exp_final.pkl'' = None \<and>
   load_experiment_results sample_int ''exp'' None ''monte_carlo''
     (map_of [(''monte_carlo/exp'',
        [(''exp_0.pkl'', Some (sample_run 10)), (''exp_final.pkl'', Some (sample_run 20))])])
     = Inl ValueError"
proof -
  have "run_index_text ''exp_final.pkl'' = ''final''" by code_simp
  moreover have "is_experiment_file ''exp'' ''exp_final.pkl''" by code_simp
  ultimately have bad: "is_experiment_file ''exp'' ''exp_final.pkl'' \<and>
      run_index sample_int ''exp_final.pkl'' = None"
    by (simp add: run_index_def)
  have folder: "map_of [(''monte_carlo/exp'',
        [(''exp_0.pkl'', Some (sample_run 10)), (''exp_final.pkl'', Some (sample_run 20))])]
      (case None of None \<Rightarrow> path_join ''monte_carlo'' ''exp'' | Some f \<Rightarrow> f)
      = Some [(''exp_0.pkl'', Some (sample_run 10)), (''exp_final.pkl'', Some (sample_run 20))]"
    by (simp add: sample_folder)
  from bad have "\<exists>f \<in> set (map fst [(''exp_0.pkl'', Some (sample_run 10)),
                   (''exp_final.pkl'', Some (sample_run 20))]).
             is_experiment_file ''exp'' f \<and> run_index sample_int f = None"
    by simp
  then have "load_experiment_results sample_int ''exp'' None ''monte_carlo''
     (map_of [(''monte_carlo/exp'',
        [(''exp_0.pkl'', Some (sample_run 10)), (''exp_final.pkl'', Some (sample_run 20))])])
     = Inl ValueError"
    by (rule malformed_index_aborts_load [rotated], intro folder)
  with bad show ?thesis by simp
qed

text \<open>
  The claim as stated speaks of the segment before the extension. The file
  \<^verbatim>\<open>exp_1.5.pkl\<close> is a file of the configuration \<^verbatim>\<open>exp\<close>; the text between its last
  underscore and \<^verbatim>\<open>.pkl\<close> is \<^verbatim>\<open>1.5\<close>, which \<^verbatim>\<open>int\<close> rejects. Line 270 cuts the segment at
  its first dot and hands \<^verbatim>\<open>1\<close> to \<^verbatim>\<open>int\<close>: the file is loaded and no error is raised.
\<close>

theorem second_dot_counterexample:
  "is_experiment_file ''exp'' ''exp_1.5.pkl'' \<and>
   ''exp_1.5.pkl'' = ''exp_'' @ ''1.5'' @ ''.pkl'' \<and>
   sample_int ''1.5'' = None \<and>
   run_index_text ''exp_1.5.pkl'' = ''1'' \<and>
   load_experiment_results sample_int ''exp'' None ''monte_carlo''
     (map_of [(''monte_carlo/exp'', [(''exp_1.5.pkl'', Some (sample_run 10))])])
     = Inr [sample_run 10]"
proof -
  have f: "is_experiment_file ''exp'' ''exp_1.5.pkl''" by code_simp
  have t: "run_index_text ''exp_1.5.pkl'' = ''1''" by code_simp
  from f t show ?thesis
    by (simp add: load_experiment_results_def sample_folder sort_by_run_index_def
        run_index_def load_file_def)
qed

theorem no_files_empty_summary_witness:
  "get_experiment_summary sample_int ''exp'' None ''monte_carlo''
     (map_of [(''monte_carlo/exp'',
        [(''notes.txt'', None), (''other_1.pkl'', Some (sample_run 10))])])
     = Inr []"
proof -
  have folder: "map_of [(''monte_carlo/exp'',
        [(''notes.txt'', None), (''other_1.pkl'', Some (sample_run 10))])]
      (case None of None \<Rightarrow> path_join ''monte_carlo'' ''exp'' | Some f \<Rightarrow> f)
      = Some [(''notes.txt'', None), (''other_1.pkl'', Some (sample_run 10))]"
    by (simp add: sample_folder)
  have "\<not> is_experiment_file ''exp'' ''notes.txt'' \<and> \<not> is_experiment_file ''exp'' ''other_1.pkl''"
    by code_simp
  then have none: "\<forall>f \<in> set (map fst [(''notes.txt'', None), (''other_1.pkl'', Some (sample_run 10))]).
      \<not> is_experiment_file ''exp'' f"
    by simp
  have "load_experiment_results sample_int ''exp'' None ''monte_carlo''
     (map_of [(''monte_carlo/exp'',
        [(''notes.txt'', None), (''other_1.pkl'', Some (sample_run 10))])]) = Inr [] \<and>
    get_experiment_summary sample_int ''exp'' None ''monte_carlo''
     (map_of [(''monte_carlo/exp'',
        [(''notes.txt'', None), (''other_1.pkl'', Some (sample_run 10))])]) = Inr []"
    by (rule no_files_empty_summary, rule folder, rule none)
  then show ?thesis by simp
qed

subsection \<open>Summary statistics\<close>

lemma stats_of_population:
  assumes "vs \<noteq> []"
  shows "stats_of vs = Inr (population_stats vs)"
proof -
  from assms obtain v rest where vs: "vs = v # rest" by (cases vs) auto
  have "0 \<le> (\<Sum>x\<leftarrow>vs. (x - sum_list vs / real (length vs))\<^sup>2) / real (length vs)"
    by (intro divide_nonneg_nonneg sum_list_nonneg) auto
  then have std: "((\<Sum>x\<leftarrow>vs. (x - sum_list vs / real (length vs))\<^sup>2) / real (length vs)) powr (1 / 2)
      = sqrt ((\<Sum>x\<leftarrow>vs. (x - sum_list vs / real (length vs))\<^sup>2) / real (length vs))"
    by (rule powr_half_sqrt)
  have mn: "Min (set vs) = fold min rest v" unfolding vs by (rule Min.set_eq_fold)
  have mx: "Max (set vs) = fold max rest v" unfolding vs by (rule Max.set_eq_fold)
  have "stats_of vs = Inr
          \<lparr>stat_mean = sum_list vs / real (length vs),
           stat_std =
             ((\<Sum>x\<leftarrow>vs. (x - sum_list vs / real (length vs))\<^sup>2) / real (length vs)) powr (1 / 2),
           stat_min = fold min rest v,
           stat_max = fold max rest v,
           stat_values = vs\<rparr>"
    by (simp add: stats_of_def vs)
  then show ?thesis
    by (simp only: population_stats_def std mn mx)
qed

lemma twelve:
  assumes "length (e :: 'a list) = 12"
  obtains a0 a1 a2 a3 a4 a5 a6 a7 a8 a9 a10 a11
  where "e = [a0, a1, a2, a3, a4, a5, a6, a7, a8, a9, a10, a11]"
  using assms by (auto simp: length_Suc_conv eval_nat_numeral)

lemma final_values_of_ok:
  assumes "length e = 12" "[] \<notin> set e"
  shows "final_values_of e = Inr (map (\<lambda>(k, i). (k, last (e ! i))) final_fields)"
proof -
  from assms(1) obtain a0 a1 a2 a3 a4 a5 a6 a7 a8 a9 a10 a11
    where e: "e = [a0, a1, a2, a3, a4, a5, a6, a7, a8, a9, a10, a11]" by (rule twelve)
  show ?thesis using assms(2) unfolding e
    by (simp add: final_values_of_def final_fields_def)
qed

lemma update_new_key: "k \<notin> fst ` set al \<Longrightarrow> AList.update k v al = al @ [(k, v)]"
  by (induction al) auto

lemma distinct_final_fields: "distinct (map fst final_fields)"
  by (simp add: final_fields_def)

lemma map_of_final_values:
  assumes "(k, i) \<in> set final_fields"
  shows "map_of (map (\<lambda>(k, i). (k, last (e ! i))) final_fields) k = Some (last (e ! i))"
proof -
  have "map_of final_fields k = Some i"
    using distinct_final_fields assms by (rule map_of_is_SomeI)
  then show ?thesis by (simp add: map_of_map)
qed

lemma key_summary_ok:
  assumes "(k, i) \<in> set final_fields" "es \<noteq> []"
  shows "key_summary (map (\<lambda>e. map (\<lambda>(k, i). (k, last (e ! i))) final_fields) es) k
           = Inr (k, Stats (population_stats (map (\<lambda>e. last (e ! i)) es)))"
proof -
  have "map (\<lambda>e. map_of e k) (map (\<lambda>e. map (\<lambda>(k, i). (k, last (e ! i))) final_fields) es)
          = map Some (map (\<lambda>e. last (e ! i)) es)"
    by (simp add: comp_def map_of_final_values [OF assms(1)])
  then have "those (map (\<lambda>e. map_of e k)
                     (map (\<lambda>e. map (\<lambda>(k, i). (k, last (e ! i))) final_fields) es))
          = Some (map (\<lambda>e. last (e ! i)) es)"
    by (simp only: those_map_Some)
  moreover have "stats_of (map (\<lambda>e. last (e ! i)) es)
          = Inr (population_stats (map (\<lambda>e. last (e ! i)) es))"
    using assms(2) by (intro stats_of_population) simp
  ultimately show ?thesis by (simp add: key_summary_def)
qed

lemma summary_of_well_formed:
  assumes load: "load_experiment_results py_int config_name experiment_folder base_folder fs
                   = Inr experiments"
    and nonempty: "experiments \<noteq> []"
    and wf: "\<forall>e \<in> set experiments. length e = 12 \<and> [] \<notin> set e"
  shows "get_experiment_summary py_int config_name experiment_folder base_folder fs
           = Inr (map (\<lambda>(k, i). (k, Stats (population_stats (map (\<lambda>e. last (e ! i)) experiments))))
                    final_fields
                  @ [(''num_experiments'', Count (length experiments))])"
proof -
  let ?fv = "\<lambda>e :: experiment_output. map (\<lambda>(k, i). (k, last (e ! i))) final_fields"
  let ?st = "\<lambda>(k, i). (k, Stats (population_stats (map (\<lambda>e. last (e ! i)) experiments)))"
  let ?g = "\<lambda>k. ?st (k, the (map_of final_fields k))"
  have fvs: "map_raise final_values_of experiments = Inr (map ?fv experiments)"
    using wf by (intro map_raise_all_ok final_values_of_ok) auto
  have keys: "map fst (hd (map ?fv experiments)) = map fst final_fields"
    using nonempty by (cases experiments) (simp_all add: comp_def case_prod_unfold)
  have each: "key_summary (map ?fv experiments) k = Inr (?g k)" if "k \<in> set (map fst final_fields)" for k
  proof -
    from that obtain i where ki: "(k, i) \<in> set final_fields" by auto
    then have "map_of final_fields k = Some i"
      using distinct_final_fields by (intro map_of_is_SomeI)
    with key_summary_ok [OF ki nonempty] show ?thesis by simp
  qed
  have "map_raise (key_summary (map ?fv experiments)) (map fst final_fields)
          = Inr (map ?g (map fst final_fields))"
    by (intro map_raise_all_ok each)
  moreover have "map ?g (map fst final_fields) = map ?st final_fields"
    by (simp add: final_fields_def)
  moreover have "''num_experiments'' \<notin> fst ` set (map ?st final_fields)"
    by (simp add: final_fields_def)
  ultimately show ?thesis
    using load nonempty fvs keys
    by (simp add: get_experiment_summary_def update_new_key del: map_map)
qed

lemma sample_well_formed:
  "[sample_run 10, sample_run 20, sample_run 30] \<noteq> []"
  "\<forall>e \<in> set [sample_run 10, sample_run 20, sample_run 30]. length e = 12 \<and> [] \<notin> set e"
  by simp_all

text \<open>
  Claim C2, amended. For every non-empty list of loaded results, each a tuple of twelve
  non-empty series, \<^verbatim>\<open>get_experiment_summary\<close> extracts twelve final values per result,
  the last element of each of the twelve series of the tuple (the time axis included,
  as \<^verbatim>\<open>simulation_time\<close>), by the fixed positions of \<open>final_fields\<close>; the summary holds
  the statistics and the values of exactly twelve metrics, followed by
  \<^verbatim>\<open>num_experiments\<close>.
\<close>

theorem summary_has_twelve_metrics:
  assumes load: "load_experiment_results py_int config_name experiment_folder base_folder fs
                   = Inr experiments"
    and nonempty: "experiments \<noteq> []"
    and wf: "\<forall>e \<in> set experiments. length e = 12 \<and> [] \<notin> set e"
  shows "(\<forall>e \<in> set experiments.
            final_values_of e = Inr (map (\<lambda>(k, i). (k, last (e ! i))) final_fields)) \<and>
         get_experiment_summary py_int config_name experiment_folder base_folder fs
           = Inr (map (\<lambda>(k, i). (k, Stats (population_stats (map (\<lambda>e. last (e ! i)) experiments))))
                    final_fields
                  @ [(''num_experiments'', Count (length experiments))]) \<and>
         length final_fields = 12 \<and> distinct (map fst final_fields) \<and>
         set (map snd final_fields) = {0..<12}"
proof -
  have "set (map snd final_fields) = {0..<12}"
    by (auto simp: final_fields_def) arith
  moreover have "length final_fields = 12" by (simp add: final_fields_def)
  moreover have "\<forall>e \<in> set experiments.
            final_values_of e = Inr (map (\<lambda>(k, i). (k, last (e ! i))) final_fields)"
    using wf by (auto intro: final_values_of_ok)
  ultimately show ?thesis
    using summary_of_well_formed [OF load nonempty wf] distinct_final_fields by simp
qed

theorem summary_has_twelve_metrics_witness:
  "final_values_of (sample_run 10)
     = Inr [(''final_waitlist_low'', 4), (''final_waitlist_high'', 2),
            (''total_waitlist_deaths_low'', 1), (''total_waitlist_deaths_high'', 1),
            (''total_post_tx_deaths_low'', 1), (''total_post_tx_deaths_high'', 1),
            (''total_deaths'', 10), (''total_xeno_used'', 1),
            (''final_recipients_low'', 1), (''final_recipients_high_std'', 1),
            (''final_recipients_high_xeno'', 1), (''simulation_time'', 2)] \<and>
   map_sum id length (get_experiment_summary sample_int ''exp'' None ''monte_carlo'' sample_fs) = Inr 13"
  using summary_has_twelve_metrics [OF sample_load sample_well_formed]
  by (simp add: final_fields_def)

text \<open>
  The claim as stated counts eleven values and eleven metrics. On the sample folder each
  result yields twelve values and the summary has twelve metrics: the twelfth is
  \<^verbatim>\<open>simulation_time\<close>, the last element of the time axis.
\<close>

theorem eleven_metrics_counterexample:
  "map_sum id (map fst) (final_values_of (sample_run 10))
     = Inr [''final_waitlist_low'', ''final_waitlist_high'',
            ''total_waitlist_deaths_low'', ''total_waitlist_deaths_high'',
            ''total_post_tx_deaths_low'', ''total_post_tx_deaths_high'',
            ''total_deaths'', ''total_xeno_used'',
            ''final_recipients_low'', ''final_recipients_high_std'',
            ''final_recipients_high_xeno'', ''simulation_time''] \<and>
   map_sum id (map fst) (get_experiment_summary sample_int ''exp'' None ''monte_carlo'' sample_fs)
     = Inr [''final_waitlist_low'', ''final_waitlist_high'',
            ''total_waitlist_deaths_low'', ''total_waitlist_deaths_high'',
            ''total_post_tx_deaths_low'', ''total_post_tx_deaths_high'',
            ''total_deaths'', ''total_xeno_used'',
            ''final_recipients_low'', ''final_recipients_high_std'',
            ''final_recipients_high_xeno'', ''simulation_time'', ''num_experiments''] \<and>
   map_sum id length (final_values_of (sample_run 10)) \<noteq> Inr 11"
  using summary_of_well_formed [OF sample_load sample_well_formed]
  by (simp add: final_fields_def final_values_of_def)

text \<open>
  Claim C4. For every non-empty list of loaded results, each a tuple of twelve non-empty
  series, the summary of each metric is the arithmetic mean, the population standard
  deviation (dividing by the number of runs), the minimum, the maximum and the list of
  the values of the runs. When the final values of \<^verbatim>\<open>total_deaths\<close> are 10, 20, 30, its
  summary has mean 20, standard deviation \<open>sqrt (200 / 3)\<close>, minimum 10, maximum 30 and
  values 10, 20, 30. Numbers are real numbers.
\<close>

theorem summary_statistics_are_population_statistics:
  assumes load: "load_experiment_results py_int config_name experiment_folder base_folder fs
                   = Inr experiments"
    and nonempty: "experiments \<noteq> []"
    and wf: "\<forall>e \<in> set experiments. length e = 12 \<and> [] \<notin> set e"
  shows "(\<forall>(k, i) \<in> set final_fields.
            map_sum id (\<lambda>s. map_of s k)
              (get_experiment_summary py_int config_name experiment_folder base_folder fs)
            = Inr (Some (Stats (population_stats (map (\<lambda>e. last (e ! i)) experiments))))) \<and>
         (map (\<lambda>e. last (e ! 7)) experiments = [10, 20, 30] \<longrightarrow>
            map_sum id (\<lambda>s. map_of s ''total_deaths'')
              (get_experiment_summary py_int config_name experiment_folder base_folder fs)
            = Inr (Some (Stats \<lparr>stat_mean = 20, stat_std = sqrt (200 / 3), stat_min = 10,
                                 stat_max = 30, stat_values = [10, 20, 30]\<rparr>)))"
proof -
  let ?st = "\<lambda>(k, i). (k, Stats (population_stats (map (\<lambda>e. last (e ! i)) experiments)))"
  let ?s = "map ?st final_fields @ [(''num_experiments'', Count (length experiments))]"
  have s: "get_experiment_summary py_int config_name experiment_folder base_folder fs = Inr ?s"
    using load nonempty wf by (rule summary_of_well_formed)
  have look: "map_of ?s k = Some (Stats (population_stats (map (\<lambda>e. last (e ! i)) experiments)))"
    if "(k, i) \<in> set final_fields" for k i
  proof -
    have "map_of final_fields k = Some i"
      using distinct_final_fields that by (rule map_of_is_SomeI)
    then have "map_of (map ?st final_fields) k
        = Some (Stats (population_stats (map (\<lambda>e. last (e ! i)) experiments)))"
      by (simp add: map_of_map)
    then show ?thesis by (simp add: map_add_Some_iff)
  qed
  have first: "\<forall>(k, i) \<in> set final_fields.
      map_sum id (\<lambda>s. map_of s k) (get_experiment_summary py_int config_name experiment_folder base_folder fs)
        = Inr (Some (Stats (population_stats (map (\<lambda>e. last (e ! i)) experiments))))"
    using look by (auto simp: s)
  have "population_stats [10, 20, 30]
      = \<lparr>stat_mean = 20, stat_std = sqrt (200 / 3), stat_min = 10, stat_max = 30,
         stat_values = [10, 20, 30]\<rparr>"
    by (simp add: population_stats_def)
  moreover have "(''total_deaths'', 7) \<in> set final_fields" by (simp add: final_fields_def)
  ultimately have second: "map (\<lambda>e. last (e ! 7)) experiments = [10, 20, 30] \<longrightarrow>
            map_sum id (\<lambda>s. map_of s ''total_deaths'')
              (get_experiment_summary py_int config_name experiment_folder base_folder fs)
            = Inr (Some (Stats \<lparr>stat_mean = 20, stat_std = sqrt (200 / 3), stat_min = 10,
                                 stat_max = 30, stat_values = [10, 20, 30]\<rparr>))"
    using look [of "''total_deaths''" 7] by (simp add: s)
  from first second show ?thesis by blast
qed

theorem summary_statistics_witness:
  "map_sum id (\<lambda>s. map_of s ''total_deaths'')
     (get_experiment_summary sample_int ''exp'' None ''monte_carlo'' sample_fs)
   = Inr (Some (Stats \<lparr>stat_mean = 20, stat_std = sqrt (200 / 3), stat_min = 10,
                        stat_max = 30, stat_values = [10, 20, 30]\<rparr>))"
  using summary_statistics_are_population_statistics [OF sample_load sample_well_formed]
  by simp

end
